theory Spec2Isabelle
  imports Complex_Main
begin

section \<open>Settings (game/settings.py)\<close>

text \<open>
  The constants of the settings module that the world, the player and the renderer read.
  Python's \<open>int\<close> is \<open>int\<close>; Python's \<open>float\<close> is modelled by \<open>real\<close> (exact
  arithmetic) everywhere except in the section on \<open>Player.rotate\<close>, where the rounding of
  binary64 arithmetic decides whether the loop ends and is therefore written out.
  A method that mutates its object returns the new object, next to its return value if
  it has one; what the methods print to the console is left out.
\<close>

definition SCREEN_WIDTH :: int where "SCREEN_WIDTH = 1024"
definition SCREEN_HEIGHT :: int where "SCREEN_HEIGHT = 768"
definition PLAYER_SPEED :: real where "PLAYER_SPEED = 5"
definition FOV :: int where "FOV = 60"
definition RENDER_DISTANCE :: int where "RENDER_DISTANCE = 20"
definition RAY_COUNT :: int where "RAY_COUNT = SCREEN_WIDTH div 2"

type_synonym color = "int \<times> int \<times> int"

definition GRAY :: color where "GRAY = (128, 128, 128)"
definition DARK_GRAY :: color where "DARK_GRAY = (64, 64, 64)"

definition TILE_SIZE :: int where "TILE_SIZE = 64"
definition PLAYER_START_X :: int where "PLAYER_START_X = 3 * TILE_SIZE"
definition PLAYER_START_Y :: int where "PLAYER_START_Y = 3 * TILE_SIZE"
definition PLAYER_START_HEALTH :: int where "PLAYER_START_HEALTH = 100"
definition PLAYER_MAX_HEALTH :: int where "PLAYER_MAX_HEALTH = 100"
definition POINTS_PER_KILL :: int where "POINTS_PER_KILL = 50"

section \<open>Python values\<close>

datatype error = IndexError

text \<open>\<open>xs[i]\<close> on a Python list: a negative index counts from the end, an index out of
  range raises \<open>IndexError\<close>.\<close>

definition py_index :: "'a list \<Rightarrow> int \<Rightarrow> error + 'a" where
  "py_index xs i =
     (if 0 \<le> i \<and> i < int (length xs) then Inr (xs ! nat i)
      else if - int (length xs) \<le> i \<and> i < 0 then Inr (xs ! nat (int (length xs) + i))
      else Inl IndexError)"

text \<open>\<open>int(r)\<close> on a float truncates toward zero.\<close>

definition py_int :: "real \<Rightarrow> int" where
  "py_int r = (if 0 \<le> r then \<lfloor>r\<rfloor> else \<lceil>r\<rceil>)"

section \<open>The world (game/world.py)\<close>

text \<open>
  The zombie and bullet classes are not part of the repository (\<open>spawn_zombie\<close> is a
  stub and nothing constructs a bullet); \<open>World.update\<close> reads \<open>zombie.health\<close> and
  \<open>bullet.should_remove\<close> and calls their \<open>update\<close> methods, which are taken as
  parameters below. Nothing reads or fills \<open>pickups\<close>; its elements have no type in the
  source.
\<close>

record zombie =
  zombie_health :: int

record bullet =
  should_remove :: bool

record world =
  map_data :: "int list list"
  zombies :: "zombie list"
  bullets :: "bullet list"
  pickups :: "unit list"
  wave :: int
  zombies_remaining :: int
  zombies_killed :: int

definition built_in_map :: "int list list" where
  "built_in_map =
    [[1,1,1,1,1,1,1,1,1,1,1,1,1,1,1,1,1,1,1,1],
     [1,0,0,0,0,0,0,0,0,1,1,0,0,0,0,0,0,0,0,1],
     [1,0,0,0,0,0,0,0,0,1,1,0,0,0,0,0,0,0,0,1],
     [1,0,0,0,0,0,0,0,0,0,0,0,0,0,0,0,0,0,0,1],
     [1,0,0,0,0,0,0,0,0,0,0,0,0,0,0,0,0,0,0,1],
     [1,0,0,0,1,1,1,0,0,0,0,0,0,1,1,1,0,0,0,1],
     [1,0,0,0,1,0,0,0,0,0,0,0,0,0,0,1,0,0,0,1],
     [1,0,0,0,1,0,0,0,0,0,0,0,0,0,0,1,0,0,0,1],
     [1,0,0,0,0,0,0,0,0,0,0,0,0,0,0,0,0,0,0,1],
     [1,0,0,0,0,0,0,0,0,0,0,0,0,0,0,0,0,0,0,1],
     [1,0,0,0,0,0,0,1,1,1,1,1,1,0,0,0,0,0,0,1],
     [1,0,0,0,0,0,0,0,0,0,0,0,0,0,0,0,0,0,0,1],
     [1,0,0,0,0,0,0,0,0,0,0,0,0,0,0,0,0,0,0,1],
     [1,0,0,0,0,0,0,0,0,0,0,0,0,0,0,0,0,0,0,1],
     [1,1,1,1,1,1,1,1,1,1,1,1,1,1,1,1,1,1,1,1]]"

text \<open>\<open>World.__init__\<close>: the literal map, no actors, wave 1, nothing left to spawn.\<close>

definition World_init :: world where
  "World_init = \<lparr> map_data = built_in_map, zombies = [], bullets = [], pickups = [],
                   wave = 1, zombies_remaining = 0, zombies_killed = 0 \<rparr>"

text \<open>\<open>int(x // TILE_SIZE)\<close>: floor division, then conversion to an integer.\<close>

definition grid_of :: "real \<Rightarrow> int" where
  "grid_of x = \<lfloor>x / real_of_int TILE_SIZE\<rfloor>"

text \<open>
  The bounds test that \<open>is_wall\<close> and \<open>get_wall_at\<close> both write out:
  \<open>grid_x < 0 or grid_x >= len(self.map_data[0]) or grid_y < 0 or grid_y >= len(self.map_data)\<close>.
  \<open>or\<close> evaluates from the left and stops at the first true operand, so
  \<open>self.map_data[0]\<close> is read (and raises on an empty map) only when \<open>grid_x\<close> is not
  negative.
\<close>

definition out_of_bounds :: "world \<Rightarrow> int \<Rightarrow> int \<Rightarrow> error + bool" where
  "out_of_bounds w grid_x grid_y =
     (if grid_x < 0 then Inr True
      else case py_index (map_data w) 0 of
             Inl e \<Rightarrow> Inl e
           | Inr row0 \<Rightarrow>
               Inr (grid_x \<ge> int (length row0) \<or> grid_y < 0 \<or> grid_y \<ge> int (length (map_data w))))"

text \<open>\<open>self.map_data[grid_y][grid_x]\<close>.\<close>

definition tile :: "world \<Rightarrow> int \<Rightarrow> int \<Rightarrow> error + int" where
  "tile w grid_x grid_y =
     (case py_index (map_data w) grid_y of
        Inl e \<Rightarrow> Inl e
      | Inr row \<Rightarrow> py_index row grid_x)"

definition is_wall :: "world \<Rightarrow> real \<Rightarrow> real \<Rightarrow> error + bool" where
  "is_wall w x y =
     (let grid_x = grid_of x; grid_y = grid_of y
      in case out_of_bounds w grid_x grid_y of
           Inl e \<Rightarrow> Inl e
         | Inr True \<Rightarrow> Inr True
         | Inr False \<Rightarrow>
             (case tile w grid_x grid_y of
                Inl e \<Rightarrow> Inl e
              | Inr c \<Rightarrow> Inr (c = 1)))"

definition get_wall_at :: "world \<Rightarrow> int \<Rightarrow> int \<Rightarrow> error + int" where
  "get_wall_at w grid_x grid_y =
     (case out_of_bounds w grid_x grid_y of
        Inl e \<Rightarrow> Inl e
      | Inr True \<Rightarrow> Inr 1
      | Inr False \<Rightarrow> tile w grid_x grid_y)"

definition get_map_width :: "world \<Rightarrow> error + int" where
  "get_map_width w = (case py_index (map_data w) 0 of Inl e \<Rightarrow> Inl e | Inr row0 \<Rightarrow> Inr (int (length row0)))"

definition get_map_height :: "world \<Rightarrow> int" where
  "get_map_height w = int (length (map_data w))"

text \<open>A map on which no index expression of the queries can raise: at least one row, and
  every row as long as the first.\<close>

definition rectangular :: "int list list \<Rightarrow> bool" where
  "rectangular m = (m \<noteq> [] \<and> list_all (\<lambda>row. length row = length (hd m)) m)"

text \<open>A map that holds the two tile codes of \<open>World.__init__\<close> only
  (\<open># 0 = empty space, 1 = wall\<close>).\<close>

definition binary_codes :: "int list list \<Rightarrow> bool" where
  "binary_codes m = list_all (list_all (\<lambda>c. c = 0 \<or> c = 1)) m"

section \<open>The player (game/player.py)\<close>

record player =
  player_x :: real
  player_y :: real
  angle :: real
  health :: int
  max_health :: int
  points :: int
  current_weapon :: string
  ammo :: int
  max_ammo :: int
  speed :: real

definition Player_init :: "real \<Rightarrow> real \<Rightarrow> player" where
  "Player_init x0 y0 =
     \<lparr> player_x = x0, player_y = y0, angle = 0,
       health = PLAYER_START_HEALTH, max_health = PLAYER_MAX_HEALTH, points = 500,
       current_weapon = ''M1911'', ammo = 8, max_ammo = 8, speed = PLAYER_SPEED \<rparr>"

text \<open>
  \<open>Player.update\<close>: the candidate X is tested at the current Y and stored first; the
  candidate Y is then tested at \<open>self.x\<close>, which is the stored (possibly new) X.
\<close>

definition player_update :: "real \<Rightarrow> real \<Rightarrow> real \<Rightarrow> world \<Rightarrow> player \<Rightarrow> error + player" where
  "player_update dt move_x move_y w p =
     (if move_x \<noteq> 0 \<or> move_y \<noteq> 0 then
        (let new_x = player_x p + move_x * speed p * dt * real_of_int TILE_SIZE;
             new_y = player_y p + move_y * speed p * dt * real_of_int TILE_SIZE
         in case is_wall w new_x (player_y p) of
              Inl e \<Rightarrow> Inl e
            | Inr blocked_x \<Rightarrow>
                (let p1 = (if \<not> blocked_x then p\<lparr>player_x := new_x\<rparr> else p)
                 in case is_wall w (player_x p1) new_y of
                      Inl e \<Rightarrow> Inl e
                    | Inr blocked_y \<Rightarrow>
                        Inr (if \<not> blocked_y then p1\<lparr>player_y := new_y\<rparr> else p1)))
      else Inr p)"

definition shoot :: "player \<Rightarrow> player \<times> bool" where
  "shoot p = (if ammo p > 0 then (p\<lparr>ammo := ammo p - 1\<rparr>, True) else (p, False))"

definition reload :: "player \<Rightarrow> player" where
  "reload p = (if ammo p < max_ammo p then p\<lparr>ammo := max_ammo p\<rparr> else p)"

definition take_damage :: "player \<Rightarrow> int \<Rightarrow> player \<times> bool" where
  "take_damage p damage =
     (let p1 = p\<lparr>health := health p - damage\<rparr>
      in if health p1 \<le> 0 then (p1\<lparr>health := 0\<rparr>, True) else (p1, False))"

definition add_points :: "player \<Rightarrow> int \<Rightarrow> player" where
  "add_points p n = p\<lparr>points := points p + n\<rparr>"

definition spend_points :: "player \<Rightarrow> int \<Rightarrow> player \<times> bool" where
  "spend_points p cost =
     (if points p \<ge> cost then (p\<lparr>points := points p - cost\<rparr>, True) else (p, False))"

definition get_grid_pos :: "player \<Rightarrow> int \<times> int" where
  "get_grid_pos p = (grid_of (player_x p), grid_of (player_y p))"

section \<open>World.update\<close>

text \<open>
  The loop over \<open>self.zombies[:]\<close>: every zombie of the snapshot is updated in place;
  one whose health is then not positive is removed from the list, counted as a kill and
  paid for. \<open>kept\<close> are the zombies already visited that stay in the list, so the list
  the world holds while zombie \<open>z\<close> is updated is \<open>kept @ z # zs\<close>. The zombie's own
  \<open>update\<close> method is the parameter \<open>zu\<close>; it is taken to change the zombie only.
\<close>

fun update_zombies ::
  "(real \<Rightarrow> player \<Rightarrow> world \<Rightarrow> zombie \<Rightarrow> zombie) \<Rightarrow> real \<Rightarrow> zombie list \<Rightarrow> zombie list \<Rightarrow>
   world \<times> player \<Rightarrow> world \<times> player" where
  "update_zombies zu dt kept [] (w, p) = (w\<lparr>zombies := kept\<rparr>, p)"
| "update_zombies zu dt kept (z # zs) (w, p) =
     (let z' = zu dt p (w\<lparr>zombies := kept @ z # zs\<rparr>) z
      in if zombie_health z' \<le> 0
         then update_zombies zu dt kept zs
                (w\<lparr>zombies_killed := zombies_killed w + 1\<rparr>, add_points p POINTS_PER_KILL)
         else update_zombies zu dt (kept @ [z']) zs (w, p))"

text \<open>The loop over \<open>self.bullets[:]\<close>, with the bullet's \<open>update\<close> method as \<open>bu\<close>.\<close>

fun update_bullets ::
  "(real \<Rightarrow> world \<Rightarrow> bullet \<Rightarrow> bullet) \<Rightarrow> real \<Rightarrow> bullet list \<Rightarrow> bullet list \<Rightarrow> world \<Rightarrow> world" where
  "update_bullets bu dt kept [] w = w\<lparr>bullets := kept\<rparr>"
| "update_bullets bu dt kept (b # bs) w =
     (let b' = bu dt (w\<lparr>bullets := kept @ b # bs\<rparr>) b
      in if should_remove b' then update_bullets bu dt kept bs w
         else update_bullets bu dt (kept @ [b']) bs w)"

definition start_next_wave :: "world \<Rightarrow> world" where
  "start_next_wave w =
     (let w1 = w\<lparr>wave := wave w + 1\<rparr> in w1\<lparr>zombies_remaining := wave w1 * 6\<rparr>)"

definition world_update ::
  "(real \<Rightarrow> player \<Rightarrow> world \<Rightarrow> zombie \<Rightarrow> zombie) \<Rightarrow> (real \<Rightarrow> world \<Rightarrow> bullet \<Rightarrow> bullet) \<Rightarrow>
   real \<Rightarrow> player \<Rightarrow> world \<Rightarrow> world \<times> player" where
  "world_update zu bu dt p w =
     (case update_zombies zu dt [] (zombies w) (w, p) of
        (w1, p1) \<Rightarrow>
          (let w2 = update_bullets bu dt [] (bullets w1) w1
           in if length (zombies w2) = 0 \<and> zombies_remaining w2 = 0
              then (start_next_wave w2, p1) else (w2, p1)))"

section \<open>The renderer (game/renderer.py)\<close>

definition fov_rad :: real where "fov_rad = real_of_int FOV * pi / 180"
definition half_fov :: real where "half_fov = fov_rad / 2"
definition angle_step :: real where "angle_step = fov_rad / real_of_int RAY_COUNT"

definition wall_colors :: "int \<rightharpoonup> color" where
  "wall_colors = [1 \<mapsto> GRAY, 2 \<mapsto> DARK_GRAY]"

definition step_size :: int where "step_size = 4"

text \<open>
  The \<open>while\<close> loop of \<open>_cast_ray\<close>. \<open>distance\<close> is a Python \<open>int\<close> (it starts at 0 and
  grows by the integer step), so the loop test is exact.
\<close>

function march :: "world \<Rightarrow> real \<Rightarrow> real \<Rightarrow> real \<Rightarrow> real \<Rightarrow> int \<Rightarrow> error + (int \<times> int)" where
  "march w dx dy rx ry distance =
     (if distance < RENDER_DISTANCE * TILE_SIZE then
        (let rx' = rx + dx * real_of_int step_size;
             ry' = ry + dy * real_of_int step_size;
             distance' = distance + step_size
         in case is_wall w rx' ry' of
              Inl e \<Rightarrow> Inl e
            | Inr True \<Rightarrow>
                (case get_wall_at w (grid_of rx') (grid_of ry') of
                   Inl e \<Rightarrow> Inl e
                 | Inr wall_type \<Rightarrow> Inr (distance', wall_type))
            | Inr False \<Rightarrow> march w dx dy rx' ry' distance')
      else Inr (RENDER_DISTANCE * TILE_SIZE, 0))"
  by pat_completeness auto
termination
  by (relation "measure (\<lambda>(w, dx, dy, rx, ry, distance). nat (RENDER_DISTANCE * TILE_SIZE - distance))")
     (auto simp: step_size_def)

declare march.simps [simp del]

definition cast_ray :: "world \<Rightarrow> real \<Rightarrow> real \<Rightarrow> real \<Rightarrow> error + (int \<times> int)" where
  "cast_ray w start_x start_y ray_angle = march w (cos ray_angle) (sin ray_angle) start_x start_y 0"

text \<open>
  The same loop with a budget of loop bodies: \<open>None\<close> when the budget is used up before
  the loop ends. It serves to count the iterations of \<open>march\<close>.
\<close>

fun march_fuel :: "nat \<Rightarrow> world \<Rightarrow> real \<Rightarrow> real \<Rightarrow> real \<Rightarrow> real \<Rightarrow> int \<Rightarrow> (error + (int \<times> int)) option" where
  "march_fuel 0 w dx dy rx ry distance =
     (if distance < RENDER_DISTANCE * TILE_SIZE then None
      else Some (Inr (RENDER_DISTANCE * TILE_SIZE, 0)))"
| "march_fuel (Suc n) w dx dy rx ry distance =
     (if distance < RENDER_DISTANCE * TILE_SIZE then
        (let rx' = rx + dx * real_of_int step_size;
             ry' = ry + dy * real_of_int step_size;
             distance' = distance + step_size
         in case is_wall w rx' ry' of
              Inl e \<Rightarrow> Some (Inl e)
            | Inr True \<Rightarrow>
                (case get_wall_at w (grid_of rx') (grid_of ry') of
                   Inl e \<Rightarrow> Some (Inl e)
                 | Inr wall_type \<Rightarrow> Some (Inr (distance', wall_type)))
            | Inr False \<Rightarrow> march_fuel n w dx dy rx' ry' distance')
      else Some (Inr (RENDER_DISTANCE * TILE_SIZE, 0)))"

text \<open>The body of the column loop of \<open>render_3d_view\<close>, up to the draw calls.\<close>

record strip =
  screen_x :: int
  strip_width :: int
  wall_top :: real
  wall_bottom :: real
  wall_height :: real
  shaded_color :: color

definition wall_height_of :: "int \<Rightarrow> real" where
  "wall_height_of distance =
     (if distance > 0
      then min ((real_of_int TILE_SIZE / real_of_int distance) * real_of_int SCREEN_HEIGHT)
               (real_of_int SCREEN_HEIGHT)
      else real_of_int SCREEN_HEIGHT)"

definition wall_color_of :: "int \<Rightarrow> color" where
  "wall_color_of wall_type = (case wall_colors wall_type of Some c \<Rightarrow> c | None \<Rightarrow> GRAY)"

definition shade_factor :: "int \<Rightarrow> real" where
  "shade_factor distance = max (1 / 10) (1 - real_of_int distance / real_of_int RENDER_DISTANCE)"

definition shade :: "real \<Rightarrow> color \<Rightarrow> color" where
  "shade f c = (case c of (r, g, b) \<Rightarrow>
     (py_int (real_of_int r * f), py_int (real_of_int g * f), py_int (real_of_int b * f)))"

definition make_strip :: "int \<Rightarrow> int \<Rightarrow> int \<Rightarrow> strip" where
  "make_strip ray_index distance wall_type =
     (let h = wall_height_of distance;
          top = real_of_int \<lfloor>(real_of_int SCREEN_HEIGHT - h) / 2\<rfloor>
      in \<lparr> screen_x = ray_index * (SCREEN_WIDTH div RAY_COUNT),
           strip_width = SCREEN_WIDTH div RAY_COUNT,
           wall_top = top, wall_bottom = top + h, wall_height = h,
           shaded_color = shade (shade_factor distance) (wall_color_of wall_type) \<rparr>)"

definition render_column :: "world \<Rightarrow> player \<Rightarrow> int \<Rightarrow> error + strip" where
  "render_column w p ray_index =
     (let start_angle = angle p - half_fov;
          ray_angle = start_angle + real_of_int ray_index * angle_step
      in case cast_ray w (player_x p) (player_y p) ray_angle of
           Inl e \<Rightarrow> Inl e
         | Inr (distance, wall_type) \<Rightarrow> Inr (make_strip ray_index distance wall_type))"

fun render_columns :: "world \<Rightarrow> player \<Rightarrow> int list \<Rightarrow> error + strip list" where
  "render_columns w p [] = Inr []"
| "render_columns w p (i # is) =
     (case render_column w p i of
        Inl e \<Rightarrow> Inl e
      | Inr s \<Rightarrow> (case render_columns w p is of Inl e \<Rightarrow> Inl e | Inr ss \<Rightarrow> Inr (s # ss)))"

definition render_3d_view :: "world \<Rightarrow> player \<Rightarrow> error + strip list" where
  "render_3d_view w p = render_columns w p (map int [0 ..< nat RAY_COUNT])"

section \<open>Player.rotate in binary64 arithmetic\<close>

text \<open>
  \<open>rotate\<close> brings the heading into range by adding or subtracting \<open>2 * math.pi\<close> in
  two \<open>while\<close> loops. Whether the second loop makes progress depends on the rounding of
  the subtraction, so here a Python \<open>float\<close> is a real number that binary64 can hold and
  every arithmetic result is rounded to the nearest such number, ties to the even
  significand (\<open>fl\<close>). The exponent range is left unbounded: the values below are far from
  overflow and from the subnormal numbers.
\<close>

definition round_half_even :: "real \<Rightarrow> int" where
  "round_half_even q =
     (let n = \<lfloor>q\<rfloor>; r = q - of_int n
      in if r < 1 / 2 then n else if 1 / 2 < r then n + 1 else if even n then n else n + 1)"

definition fl :: "real \<Rightarrow> real" where
  "fl v =
     (if v = 0 then 0
      else (let e = \<lfloor>log 2 \<bar>v\<bar>\<rfloor>; u = 2 powr of_int (e - 52)
            in of_int (round_half_even (v / u)) * u))"

text \<open>\<open>math.pi\<close>, the binary64 number nearest to \<open>\<pi>\<close>: \<open>0x400921FB54442D18\<close>.\<close>

definition math_pi :: real where
  "math_pi = 884279719003555 / 2 ^ 48"

partial_function (option) wrap_up :: "real \<Rightarrow> real option" where
  "wrap_up a = (if a < 0 then wrap_up (fl (a + fl (2 * math_pi))) else Some a)"

partial_function (option) wrap_down :: "real \<Rightarrow> real option" where
  "wrap_down a = (if a \<ge> fl (2 * math_pi) then wrap_down (fl (a - fl (2 * math_pi))) else Some a)"

text \<open>\<open>None\<close>: the call does not return.\<close>

definition rotate :: "player \<Rightarrow> real \<Rightarrow> player option" where
  "rotate p angle_delta =
     (case wrap_up (fl (angle p + angle_delta)) of
        None \<Rightarrow> None
      | Some a1 \<Rightarrow>
          (case wrap_down a1 of
             None \<Rightarrow> None
           | Some a2 \<Rightarrow> Some (p\<lparr>angle := a2\<rparr>)))"

section \<open>The loops of Player.rotate in exact arithmetic\<close>

text \<open>
  For comparison with \<open>rotate\<close>: the same two loops over the real numbers, with the
  number \<open>\<pi>\<close> itself and no rounding. Here both loops end, by the number of turns that
  separates the heading from the range.
\<close>

function wrap_up_exact :: "real \<Rightarrow> real" where
  "wrap_up_exact a = (if a < 0 then wrap_up_exact (a + 2 * pi) else a)"
  by pat_completeness auto
termination
proof (relation "measure (\<lambda>a. nat \<lceil>- a / (2 * pi)\<rceil>)")
  show "wf (measure (\<lambda>a. nat \<lceil>- a / (2 * pi)\<rceil>))" by simp
next
  fix a :: real assume neg: "a < 0"
  define q where "q = - a / (2 * pi)"
  have e: "- (a + 2 * pi) / (2 * pi) = q - 1"
    unfolding q_def by (simp add: field_simps)
  have "0 < q" unfolding q_def using neg by (simp add: divide_neg_pos)
  then have "0 < \<lceil>q\<rceil>" by (simp add: less_ceiling_iff)
  moreover have "\<lceil>q - 1\<rceil> = \<lceil>q\<rceil> - 1" by simp
  ultimately have "nat \<lceil>q - 1\<rceil> < nat \<lceil>q\<rceil>" by simp
  then show "(a + 2 * pi, a) \<in> measure (\<lambda>a. nat \<lceil>- a / (2 * pi)\<rceil>)"
    unfolding in_measure e q_def [symmetric] .
qed

function wrap_down_exact :: "real \<Rightarrow> real" where
  "wrap_down_exact a = (if a \<ge> 2 * pi then wrap_down_exact (a - 2 * pi) else a)"
  by pat_completeness auto
termination
proof (relation "measure (\<lambda>a. nat \<lfloor>a / (2 * pi)\<rfloor>)")
  show "wf (measure (\<lambda>a. nat \<lfloor>a / (2 * pi)\<rfloor>))" by simp
next
  fix a :: real assume big: "2 * pi \<le> a"
  define q where "q = a / (2 * pi)"
  have e: "(a - 2 * pi) / (2 * pi) = q - 1"
    unfolding q_def by (simp add: field_simps)
  have "1 \<le> q" unfolding q_def using big by (simp add: field_simps)
  then have "1 \<le> \<lfloor>q\<rfloor>" by (simp add: le_floor_iff)
  moreover have "\<lfloor>q - 1\<rfloor> = \<lfloor>q\<rfloor> - 1" by simp
  ultimately have "nat \<lfloor>q - 1\<rfloor> < nat \<lfloor>q\<rfloor>" by simp
  then show "(a - 2 * pi, a) \<in> measure (\<lambda>a. nat \<lfloor>a / (2 * pi)\<rfloor>)"
    unfolding in_measure e q_def [symmetric] .
qed

declare wrap_up_exact.simps [simp del] wrap_down_exact.simps [simp del]

definition rotate_exact :: "player \<Rightarrow> real \<Rightarrow> player" where
  "rotate_exact p angle_delta = p\<lparr>angle := wrap_down_exact (wrap_up_exact (angle p + angle_delta))\<rparr>"

section \<open>A map and a statement of the specification, for comparison\<close>

text \<open>A one-row map without walls, 30 tiles wide: wider than a ray can travel.\<close>

definition open_strip_world :: world where
  "open_strip_world = World_init\<lparr>map_data := [replicate 30 0]\<rparr>"

text \<open>
  The specification's wording of the shade factor, with the hit distance and the render
  distance in the same unit: the distance (pixels) is brought to tiles before it is
  divided by the render distance (tiles). (\<open>shade_factor\<close> above divides the pixels by
  the tiles.)
\<close>

definition shade_factor_as_claimed :: "int \<Rightarrow> real" where
  "shade_factor_as_claimed distance =
     max (1 / 10) (1 - (real_of_int distance / real_of_int TILE_SIZE) / real_of_int RENDER_DISTANCE)"


section \<open>The world queries\<close>

lemma py_index_in_range:
  "0 \<le> i \<Longrightarrow> i < int (length xs) \<Longrightarrow> py_index xs i = Inr (xs ! nat i)"
  by (simp add: py_index_def)

lemma rectangular_row_length:
  "rectangular m \<Longrightarrow> 0 \<le> j \<Longrightarrow> j < int (length m) \<Longrightarrow> length (m ! nat j) = length (hd m)"
  by (simp add: rectangular_def list_all_length)

lemma out_of_bounds_rectangular:
  assumes "rectangular (map_data w)"
  shows "out_of_bounds w grid_x grid_y =
           Inr (grid_x < 0 \<or> grid_x \<ge> int (length (hd (map_data w))) \<or>
                grid_y < 0 \<or> grid_y \<ge> int (length (map_data w)))"
proof -
  from assms have ne: "map_data w \<noteq> []" by (simp add: rectangular_def)
  then have "py_index (map_data w) 0 = Inr (hd (map_data w))"
    by (simp add: py_index_def hd_conv_nth)
  then show ?thesis by (simp add: out_of_bounds_def)
qed

lemma tile_rectangular:
  assumes "rectangular (map_data w)"
    and "0 \<le> grid_x" and "grid_x < int (length (hd (map_data w)))"
    and "0 \<le> grid_y" and "grid_y < int (length (map_data w))"
  shows "tile w grid_x grid_y = Inr (map_data w ! nat grid_y ! nat grid_x)"
proof -
  have "length (map_data w ! nat grid_y) = length (hd (map_data w))"
    using assms by (simp add: rectangular_row_length)
  with assms show ?thesis
    by (simp add: tile_def py_index_in_range)
qed

lemma is_wall_rectangular:
  assumes "rectangular (map_data w)"
  shows "is_wall w x y =
           Inr (if grid_of x < 0 \<or> grid_of x \<ge> int (length (hd (map_data w))) \<or>
                   grid_of y < 0 \<or> grid_of y \<ge> int (length (map_data w))
                then True
                else map_data w ! nat (grid_of y) ! nat (grid_of x) = 1)"
  using assms
  by (simp add: is_wall_def Let_def out_of_bounds_rectangular tile_rectangular)

lemma get_wall_at_rectangular:
  assumes "rectangular (map_data w)"
  shows "get_wall_at w grid_x grid_y =
           Inr (if grid_x < 0 \<or> grid_x \<ge> int (length (hd (map_data w))) \<or>
                   grid_y < 0 \<or> grid_y \<ge> int (length (map_data w))
                then 1
                else map_data w ! nat grid_y ! nat grid_x)"
  using assms
  by (simp add: get_wall_at_def out_of_bounds_rectangular tile_rectangular)

lemma rectangular_built_in: "rectangular (map_data World_init)"
  by (simp add: rectangular_def World_init_def built_in_map_def)

lemma built_in_binary: "binary_codes (map_data World_init)"
  by (simp add: binary_codes_def World_init_def built_in_map_def)

text \<open>On a map of codes 0 and 1, the test \<open>== 1\<close> of \<open>is_wall\<close> is the test for a nonzero
  code.\<close>

lemma binary_code_one_iff_nonzero:
  assumes "rectangular m" and "binary_codes m"
    and "0 \<le> grid_x" and "grid_x < int (length (hd m))"
    and "0 \<le> grid_y" and "grid_y < int (length m)"
  shows "(m ! nat grid_y ! nat grid_x = 1) = (m ! nat grid_y ! nat grid_x \<noteq> 0)"
proof -
  from assms(5,6) have row: "nat grid_y < length m" by simp
  have "length (m ! nat grid_y) = length (hd m)"
    using assms(1,5,6) by (rule rectangular_row_length)
  with assms(3,4) have col: "nat grid_x < length (m ! nat grid_y)" by simp
  from assms(2) row have "list_all (\<lambda>c. c = 0 \<or> c = 1) (m ! nat grid_y)"
    by (simp add: binary_codes_def list_all_length)
  with col have "m ! nat grid_y ! nat grid_x = 0 \<or> m ! nat grid_y ! nat grid_x = 1"
    by (simp add: list_all_length)
  then show ?thesis by auto
qed

lemma is_wall_nonzero:
  assumes "rectangular (map_data w)" and "binary_codes (map_data w)"
  shows "is_wall w x y =
           Inr (if grid_of x < 0 \<or> grid_of x \<ge> int (length (hd (map_data w))) \<or>
                   grid_of y < 0 \<or> grid_of y \<ge> int (length (map_data w))
                then True
                else map_data w ! nat (grid_of y) ! nat (grid_of x) \<noteq> 0)"
proof (cases "grid_of x < 0 \<or> grid_of x \<ge> int (length (hd (map_data w))) \<or>
              grid_of y < 0 \<or> grid_of y \<ge> int (length (map_data w))")
  case True
  then show ?thesis using is_wall_rectangular [OF assms(1), of x y] by simp
next
  case False
  then have "(map_data w ! nat (grid_of y) ! nat (grid_of x) = 1) =
             (map_data w ! nat (grid_of y) ! nat (grid_of x) \<noteq> 0)"
    by (intro binary_code_one_iff_nonzero [OF assms]) simp_all
  with False show ?thesis using is_wall_rectangular [OF assms(1), of x y] by simp
qed

text \<open>
  Claim C3. On the world the program builds, and on every rectangular map of the codes
  0 and 1, for every coordinate pair: \<open>is_wall\<close> turns \<open>x\<close> and \<open>y\<close> into tile indices by
  floor division by the tile size, answers true when an index lies outside
  [0, width) x [0, height), and otherwise answers true exactly when the tile code at that
  index is nonzero. \<open>get_wall_at\<close> answers the wall code 1 for a grid index outside the
  grid and the stored tile code otherwise. Neither query raises.
\<close>

theorem world_queries_nonzero:
  assumes "rectangular (map_data w)" and "binary_codes (map_data w)"
  shows "is_wall w x y =
           Inr (if \<lfloor>x / real_of_int TILE_SIZE\<rfloor> < 0 \<or>
                   \<lfloor>x / real_of_int TILE_SIZE\<rfloor> \<ge> int (length (hd (map_data w))) \<or>
                   \<lfloor>y / real_of_int TILE_SIZE\<rfloor> < 0 \<or>
                   \<lfloor>y / real_of_int TILE_SIZE\<rfloor> \<ge> int (length (map_data w))
                then True
                else map_data w ! nat \<lfloor>y / real_of_int TILE_SIZE\<rfloor>
                                ! nat \<lfloor>x / real_of_int TILE_SIZE\<rfloor> \<noteq> 0) \<and>
         get_wall_at w grid_x grid_y =
           Inr (if grid_x < 0 \<or> grid_x \<ge> int (length (hd (map_data w))) \<or>
                   grid_y < 0 \<or> grid_y \<ge> int (length (map_data w))
                then 1
                else map_data w ! nat grid_y ! nat grid_x)"
  using is_wall_nonzero [OF assms, of x y] get_wall_at_rectangular [OF assms(1), of grid_x grid_y]
  by (simp add: grid_of_def)

text \<open>
  The world of \<open>World.__init__\<close>, whose map no method changes: it is rectangular, 20 by
  15, of codes 0 and 1, so the statement holds there at every coordinate pair and every
  grid index; at the spawn tile, outside the grid and on the border it gives the values
  below.
\<close>

theorem world_queries_nonzero_witness:
  "rectangular (map_data World_init) \<and> binary_codes (map_data World_init) \<and>
   (\<forall>x y grid_x grid_y.
      is_wall World_init x y =
        Inr (if \<lfloor>x / real_of_int TILE_SIZE\<rfloor> < 0 \<or> \<lfloor>x / real_of_int TILE_SIZE\<rfloor> \<ge> 20 \<or>
                \<lfloor>y / real_of_int TILE_SIZE\<rfloor> < 0 \<or> \<lfloor>y / real_of_int TILE_SIZE\<rfloor> \<ge> 15
             then True
             else built_in_map ! nat \<lfloor>y / real_of_int TILE_SIZE\<rfloor>
                               ! nat \<lfloor>x / real_of_int TILE_SIZE\<rfloor> \<noteq> 0) \<and>
      get_wall_at World_init grid_x grid_y =
        Inr (if grid_x < 0 \<or> grid_x \<ge> 20 \<or> grid_y < 0 \<or> grid_y \<ge> 15 then 1
             else built_in_map ! nat grid_y ! nat grid_x)) \<and>
   is_wall World_init 192 192 = Inr False \<and>
   is_wall World_init (-10) (-10) = Inr True \<and>
   is_wall World_init 0 0 = Inr True \<and>
   get_wall_at World_init 19 3 = Inr 1 \<and>
   get_wall_at World_init 3 3 = Inr 0 \<and>
   get_wall_at World_init 100 100 = Inr 1"
proof -
  note t = world_queries_nonzero [OF rectangular_built_in built_in_binary]
  have dims: "int (length (hd (map_data World_init))) = 20"
    "int (length (map_data World_init)) = 15"
    by (simp_all add: World_init_def built_in_map_def)
  have the_map: "map_data World_init = built_in_map"
    by (simp add: World_init_def)
  have everywhere: "\<forall>x y grid_x grid_y.
      is_wall World_init x y =
        Inr (if \<lfloor>x / real_of_int TILE_SIZE\<rfloor> < 0 \<or> \<lfloor>x / real_of_int TILE_SIZE\<rfloor> \<ge> 20 \<or>
                \<lfloor>y / real_of_int TILE_SIZE\<rfloor> < 0 \<or> \<lfloor>y / real_of_int TILE_SIZE\<rfloor> \<ge> 15
             then True
             else built_in_map ! nat \<lfloor>y / real_of_int TILE_SIZE\<rfloor>
                               ! nat \<lfloor>x / real_of_int TILE_SIZE\<rfloor> \<noteq> 0) \<and>
      get_wall_at World_init grid_x grid_y =
        Inr (if grid_x < 0 \<or> grid_x \<ge> 20 \<or> grid_y < 0 \<or> grid_y \<ge> 15 then 1
             else built_in_map ! nat grid_y ! nat grid_x)"
    using t unfolding dims unfolding the_map by blast
  have points:
    "is_wall World_init 192 192 = Inr False \<and>
     is_wall World_init (-10) (-10) = Inr True \<and>
     is_wall World_init 0 0 = Inr True \<and>
     get_wall_at World_init 19 3 = Inr 1 \<and>
     get_wall_at World_init 3 3 = Inr 0 \<and>
     get_wall_at World_init 100 100 = Inr 1"
    using t [of 192 192 19 3] t [of "-10" "-10" 3 3] t [of 0 0 100 100]
    by (simp add: World_init_def built_in_map_def TILE_SIZE_def)
  from everywhere points rectangular_built_in built_in_binary show ?thesis by blast
qed

section \<open>The player\<close>

text \<open>
  Claim C1, as the code has it. \<open>take_damage\<close> subtracts the damage from health, clamps
  health at 0, and returns true exactly when health is 0 after the call, whatever it was
  before.
\<close>

theorem take_damage_level:
  "take_damage p damage = (p\<lparr>health := max 0 (health p - damage)\<rparr>, health p - damage \<le> 0) \<and>
   snd (take_damage p damage) = (health (fst (take_damage p damage)) = 0)"
  by (simp add: take_damage_def Let_def max_def)

text \<open>
  Claim C1 as stated fails: a player at full health takes 100 damage and goes down (the
  call returns true, health is 0); the next call, with health still 0, returns true again.
\<close>

theorem take_damage_fires_again:
  "snd (take_damage (Player_init 192 192) 100) \<and>
   health (fst (take_damage (Player_init 192 192) 100)) = 0 \<and>
   snd (take_damage (fst (take_damage (Player_init 192 192) 100)) 25) \<and>
   health (fst (take_damage (fst (take_damage (Player_init 192 192) 100)) 25)) = 0"
  by (simp add: take_damage_def Player_init_def PLAYER_START_HEALTH_def Let_def)

text \<open>
  Claim C9. With ammo left, \<open>shoot\<close> returns true and takes exactly one round; with no
  ammo it returns false and the player is unchanged. It returns a value in both cases.
\<close>

theorem shoot_spec:
  "(0 < ammo p \<longrightarrow> shoot p = (p\<lparr>ammo := ammo p - 1\<rparr>, True)) \<and>
   (ammo p = 0 \<longrightarrow> shoot p = (p, False) \<and> ammo (fst (shoot p)) = 0)"
  by (simp add: shoot_def)

text \<open>The fresh player with 8 rounds, and the same player with none.\<close>

theorem shoot_spec_witness:
  "0 < ammo (Player_init 192 192) \<and>
   shoot (Player_init 192 192) = ((Player_init 192 192)\<lparr>ammo := 7\<rparr>, True) \<and>
   ammo ((Player_init 192 192)\<lparr>ammo := 0\<rparr>) = 0 \<and>
   shoot ((Player_init 192 192)\<lparr>ammo := 0\<rparr>) = ((Player_init 192 192)\<lparr>ammo := 0\<rparr>, False)"
  using shoot_spec [of "Player_init 192 192"] shoot_spec [of "(Player_init 192 192)\<lparr>ammo := 0\<rparr>"]
  by (simp add: Player_init_def)

text \<open>
  Claim C4. For a nonzero movement direction the candidate X is tested at the current Y
  and accepted first; the candidate Y is tested at the X that results and accepted
  second. So when the candidate X is in a wall and the candidate Y, at the old X, is not,
  a move with a positive Y component (south) keeps X and advances Y only.
\<close>

theorem player_update_axis_separated:
  assumes "move_x \<noteq> 0 \<or> move_y \<noteq> 0"
    and "new_x = player_x p + move_x * speed p * dt * real_of_int TILE_SIZE"
    and "new_y = player_y p + move_y * speed p * dt * real_of_int TILE_SIZE"
    and "is_wall w new_x (player_y p) = Inr blocked_x"
    and "is_wall w (if blocked_x then player_x p else new_x) new_y = Inr blocked_y"
  shows "player_update dt move_x move_y w p =
           Inr (p\<lparr>player_x := (if blocked_x then player_x p else new_x),
                  player_y := (if blocked_y then player_y p else new_y)\<rparr>) \<and>
         (blocked_x \<and> \<not> blocked_y \<and> 0 < move_y \<and> 0 < speed p \<and> 0 < dt \<longrightarrow>
            (\<exists>p'. player_update dt move_x move_y w p = Inr p' \<and>
                  player_x p' = player_x p \<and> player_y p < player_y p' \<and> player_y p' = new_y))"
proof -
  have first: "player_update dt move_x move_y w p =
           Inr (p\<lparr>player_x := (if blocked_x then player_x p else new_x),
                  player_y := (if blocked_y then player_y p else new_y)\<rparr>)"
    using assms by (cases blocked_x; cases blocked_y) (simp_all add: player_update_def Let_def)
  have "player_y p < new_y" if "0 < move_y" "0 < speed p" "0 < dt"
    using that assms(3) by (simp add: TILE_SIZE_def)
  with first show ?thesis by auto
qed

text \<open>
  The built-in map: a player in tile (18, 3), next to the east border, moves south-east
  for a tenth of a second. The candidate X 1219.2 lies in the border, the candidate Y
  225.6 does not.
\<close>

theorem player_update_axis_separated_witness:
  "is_wall World_init (6096 / 5) 200 = Inr True \<and>
   is_wall World_init 1200 (1128 / 5) = Inr False \<and>
   player_update (1 / 10) (3 / 5) (4 / 5) World_init (Player_init 1200 200) =
     Inr ((Player_init 1200 200)\<lparr>player_y := 1128 / 5\<rparr>)"
proof -
  have a: "is_wall World_init (6096 / 5) 200 = Inr True"
    by (simp add: is_wall_def out_of_bounds_def tile_def py_index_def grid_of_def TILE_SIZE_def
        World_init_def built_in_map_def)
  have b: "is_wall World_init 1200 (1128 / 5) = Inr False"
    by (simp add: is_wall_def out_of_bounds_def tile_def py_index_def grid_of_def TILE_SIZE_def
        World_init_def built_in_map_def)
  have "player_update (1 / 10) (3 / 5) (4 / 5) World_init (Player_init 1200 200) =
     Inr ((Player_init 1200 200)\<lparr>player_x := player_x (Player_init 1200 200), player_y := 1128 / 5\<rparr>)"
    using player_update_axis_separated [of "3 / 5" "4 / 5" "6096 / 5" "Player_init 1200 200"
        "1 / 10" "1128 / 5" World_init True False] a b
    by (simp add: Player_init_def PLAYER_SPEED_def TILE_SIZE_def)
  then show ?thesis using a b by (simp add: Player_init_def)
qed

section \<open>World.update\<close>

lemma update_bullets_frame:
  "zombies (update_bullets bu dt kept bs w) = zombies w \<and>
   wave (update_bullets bu dt kept bs w) = wave w \<and>
   zombies_remaining (update_bullets bu dt kept bs w) = zombies_remaining w"
  by (induction bs arbitrary: kept) (simp_all add: Let_def)

lemma world_update_wave_done:
  assumes "zombies w = []" and "zombies_remaining w = 0"
  shows "wave (fst (world_update zu bu dt p w)) = wave w + 1"
    and "zombies_remaining (fst (world_update zu bu dt p w)) = (wave w + 1) * 6"
  using assms by (simp_all add: world_update_def Let_def update_bullets_frame start_next_wave_def)

text \<open>
  Claim C6. When \<open>World.update\<close> is called with no active zombie and nothing left to
  spawn, the wave number goes up by one and the spawn quota becomes six times the new wave
  number: a quota that is strictly larger for a larger wave number. From wave 1 the call
  yields wave 2 with quota 12, above both the old pending count 0 and six times 1.
\<close>

theorem world_update_next_wave:
  assumes "zombies w = []" and "zombies_remaining w = 0"
  shows "wave (fst (world_update zu bu dt p w)) = wave w + 1 \<and>
         zombies_remaining (fst (world_update zu bu dt p w)) = wave (fst (world_update zu bu dt p w)) * 6 \<and>
         (\<forall>w'. zombies w' = [] \<and> zombies_remaining w' = 0 \<and> wave w < wave w' \<longrightarrow>
            zombies_remaining (fst (world_update zu bu dt p w)) <
            zombies_remaining (fst (world_update zu bu dt p w'))) \<and>
         (wave w = 1 \<longrightarrow>
            wave (fst (world_update zu bu dt p w)) = 2 \<and>
            zombies_remaining (fst (world_update zu bu dt p w)) = 12 \<and>
            zombies_remaining w < zombies_remaining (fst (world_update zu bu dt p w)) \<and>
            1 * 6 < zombies_remaining (fst (world_update zu bu dt p w)))"
  using assms by (auto simp add: world_update_wave_done)

text \<open>The fresh world, with actors that do nothing; and, for the ordering of quotas, the
  same world at wave 3.\<close>

theorem world_update_next_wave_witness:
  "zombies World_init = [] \<and> zombies_remaining World_init = 0 \<and> wave World_init = 1 \<and>
   wave (fst (world_update (\<lambda>dt p w z. z) (\<lambda>dt w b. b) (1 / 60) (Player_init 192 192) World_init)) = 2 \<and>
   zombies_remaining (fst (world_update (\<lambda>dt p w z. z) (\<lambda>dt w b. b) (1 / 60) (Player_init 192 192) World_init)) = 12 \<and>
   zombies_remaining (fst (world_update (\<lambda>dt p w z. z) (\<lambda>dt w b. b) (1 / 60) (Player_init 192 192) World_init)) <
   zombies_remaining (fst (world_update (\<lambda>dt p w z. z) (\<lambda>dt w b. b) (1 / 60) (Player_init 192 192)
                             (World_init\<lparr>wave := 3\<rparr>)))"
proof -
  have pre: "zombies World_init = []" "zombies_remaining World_init = 0" "wave World_init = 1"
    by (simp_all add: World_init_def)
  note t = world_update_next_wave [OF pre(1,2), of "\<lambda>dt p w z. z" "\<lambda>dt w b. b" "1 / 60" "Player_init 192 192"]
  from t pre(3) have first: 
    "wave (fst (world_update (\<lambda>dt p w z. z) (\<lambda>dt w b. b) (1 / 60) (Player_init 192 192) World_init)) = 2"
    "zombies_remaining (fst (world_update (\<lambda>dt p w z. z) (\<lambda>dt w b. b) (1 / 60) (Player_init 192 192) World_init)) = 12"
    by simp_all
  have "zombies (World_init\<lparr>wave := 3\<rparr>) = [] \<and> zombies_remaining (World_init\<lparr>wave := 3\<rparr>) = 0 \<and>
        wave World_init < wave (World_init\<lparr>wave := 3\<rparr>)"
    by (simp add: World_init_def)
  with t have
    "zombies_remaining (fst (world_update (\<lambda>dt p w z. z) (\<lambda>dt w b. b) (1 / 60) (Player_init 192 192) World_init)) <
     zombies_remaining (fst (world_update (\<lambda>dt p w z. z) (\<lambda>dt w b. b) (1 / 60) (Player_init 192 192)
                             (World_init\<lparr>wave := 3\<rparr>)))"
    by blast
  with pre first show ?thesis by simp
qed

section \<open>The ray march\<close>

text \<open>One turn of the loop, and the exit, with the constants evaluated.\<close>

lemma march_step:
  assumes "distance < 1280"
  shows "march w dx dy rx ry distance =
     (case is_wall w (rx + dx * 4) (ry + dy * 4) of
        Inl e \<Rightarrow> Inl e
      | Inr True \<Rightarrow>
          (case get_wall_at w (grid_of (rx + dx * 4)) (grid_of (ry + dy * 4)) of
             Inl e \<Rightarrow> Inl e
           | Inr wall_type \<Rightarrow> Inr (distance + 4, wall_type))
      | Inr False \<Rightarrow> march w dx dy (rx + dx * 4) (ry + dy * 4) (distance + 4))"
  using assms
  by (subst march.simps) (simp add: RENDER_DISTANCE_def TILE_SIZE_def step_size_def Let_def)

lemma march_stop:
  assumes "1280 \<le> distance"
  shows "march w dx dy rx ry distance = Inr (1280, 0)"
  using assms
  by (subst march.simps) (simp add: RENDER_DISTANCE_def TILE_SIZE_def)

lemma march_fuel_enough:
  "1280 \<le> distance + 4 * int n \<Longrightarrow>
   march_fuel n w dx dy rx ry distance = Some (march w dx dy rx ry distance)"
proof (induction n arbitrary: rx ry distance)
  case 0
  then show ?case by (simp add: march_stop RENDER_DISTANCE_def TILE_SIZE_def)
next
  case (Suc n)
  show ?case
  proof (cases "distance < 1280")
    case True
    have "march_fuel n w dx dy (rx + dx * 4) (ry + dy * 4) (distance + 4) =
          Some (march w dx dy (rx + dx * 4) (ry + dy * 4) (distance + 4))"
      using Suc.prems by (intro Suc.IH) simp
    with True show ?thesis
      by (simp add: march_step RENDER_DISTANCE_def TILE_SIZE_def step_size_def Let_def
          split: sum.splits bool.splits)
  next
    case False
    then show ?thesis by (simp add: march_stop RENDER_DISTANCE_def TILE_SIZE_def)
  qed
qed

lemma march_hit:
  assumes "1 \<le> k" and "distance + 4 * int k < 1284"
    and "\<forall>j. 1 \<le> j \<and> j < k \<longrightarrow> is_wall w (rx + real j * (dx * 4)) (ry + real j * (dy * 4)) = Inr False"
    and "is_wall w (rx + real k * (dx * 4)) (ry + real k * (dy * 4)) = Inr True"
  shows "march w dx dy rx ry distance =
           (case get_wall_at w (grid_of (rx + real k * (dx * 4))) (grid_of (ry + real k * (dy * 4))) of
              Inl e \<Rightarrow> Inl e
            | Inr wall_type \<Rightarrow> Inr (distance + 4 * int k, wall_type))"
  using assms
proof (induction k arbitrary: rx ry distance)
  case 0
  then show ?case by simp
next
  case (Suc k)
  from Suc.prems(2) have run: "distance < 1280" by simp
  show ?case
  proof (cases "k = 0")
    case True
    with Suc.prems(4) run show ?thesis by (simp add: march_step cong: sum.case_cong)
  next
    case False
    then have k1: "1 \<le> k" by simp
    have "1 \<le> (1::nat) \<and> (1::nat) < Suc k" using k1 by simp
    with Suc.prems(3)
    have "is_wall w (rx + real 1 * (dx * 4)) (ry + real 1 * (dy * 4)) = Inr False"
      by blast
    then have open1: "is_wall w (rx + dx * 4) (ry + dy * 4) = Inr False" by simp
    have shift: "rx + dx * 4 + real j * (dx * 4) = rx + real (Suc j) * (dx * 4)"
                "ry + dy * 4 + real j * (dy * 4) = ry + real (Suc j) * (dy * 4)" for j
      by (simp_all add: algebra_simps)
    have dist: "distance + 4 + 4 * int k = distance + 4 * int (Suc k)" by simp
    have rest: "march w dx dy (rx + dx * 4) (ry + dy * 4) (distance + 4) =
           (case get_wall_at w (grid_of (rx + dx * 4 + real k * (dx * 4)))
                               (grid_of (ry + dy * 4 + real k * (dy * 4))) of
              Inl e \<Rightarrow> Inl e
            | Inr wall_type \<Rightarrow> Inr (distance + 4 + 4 * int k, wall_type))"
    proof (rule Suc.IH [OF k1])
      show "distance + 4 + 4 * int k < 1284" using Suc.prems(2) by simp
      show "\<forall>j. 1 \<le> j \<and> j < k \<longrightarrow>
              is_wall w (rx + dx * 4 + real j * (dx * 4)) (ry + dy * 4 + real j * (dy * 4)) = Inr False"
        using Suc.prems(3) unfolding shift by auto
      show "is_wall w (rx + dx * 4 + real k * (dx * 4)) (ry + dy * 4 + real k * (dy * 4)) = Inr True"
        using Suc.prems(4) unfolding shift .
    qed
    have "march w dx dy rx ry distance = march w dx dy (rx + dx * 4) (ry + dy * 4) (distance + 4)"
      using run open1 by (simp add: march_step)
    also note rest [unfolded shift dist]
    finally show ?thesis .
  qed
qed

lemma march_miss:
  assumes "1280 \<le> distance + 4 * int n"
    and "\<forall>j. 1 \<le> j \<and> j \<le> n \<longrightarrow> is_wall w (rx + real j * (dx * 4)) (ry + real j * (dy * 4)) = Inr False"
  shows "march w dx dy rx ry distance = Inr (1280, 0)"
  using assms
proof (induction n arbitrary: rx ry distance)
  case 0
  then show ?case by (simp add: march_stop)
next
  case (Suc n)
  show ?case
  proof (cases "distance < 1280")
    case False
    then show ?thesis by (simp add: march_stop)
  next
    case True
    have "1 \<le> (1::nat) \<and> (1::nat) \<le> Suc n" by simp
    with Suc.prems(2)
    have "is_wall w (rx + real 1 * (dx * 4)) (ry + real 1 * (dy * 4)) = Inr False"
      by blast
    then have open1: "is_wall w (rx + dx * 4) (ry + dy * 4) = Inr False" by simp
    have shift: "rx + dx * 4 + real j * (dx * 4) = rx + real (Suc j) * (dx * 4)"
                "ry + dy * 4 + real j * (dy * 4) = ry + real (Suc j) * (dy * 4)" for j
      by (simp_all add: algebra_simps)
    have "march w dx dy (rx + dx * 4) (ry + dy * 4) (distance + 4) = Inr (1280, 0)"
    proof (rule Suc.IH)
      show "1280 \<le> distance + 4 + 4 * int n" using Suc.prems(1) by simp
      show "\<forall>j. 1 \<le> j \<and> j \<le> n \<longrightarrow>
              is_wall w (rx + dx * 4 + real j * (dx * 4)) (ry + dy * 4 + real j * (dy * 4)) = Inr False"
        using Suc.prems(2) unfolding shift by auto
    qed
    with True open1 show ?thesis by (simp add: march_step)
  qed
qed

lemma march_total_aux:
  assumes "rectangular (map_data w)" and "1280 \<le> distance + 4 * int n"
  shows "\<exists>d t. march w dx dy rx ry distance = Inr (d, t)"
  using assms(2)
proof (induction n arbitrary: rx ry distance)
  case 0
  then show ?case by (simp add: march_stop)
next
  case (Suc n)
  show ?case
  proof (cases "distance < 1280")
    case False
    then show ?thesis by (simp add: march_stop)
  next
    case True
    obtain b where b: "is_wall w (rx + dx * 4) (ry + dy * 4) = Inr b"
      using is_wall_rectangular [OF assms(1)] by blast
    obtain c where c: "get_wall_at w (grid_of (rx + dx * 4)) (grid_of (ry + dy * 4)) = Inr c"
      using get_wall_at_rectangular [OF assms(1)] by blast
    have "\<exists>d t. march w dx dy (rx + dx * 4) (ry + dy * 4) (distance + 4) = Inr (d, t)"
      using Suc.prems by (intro Suc.IH) simp
    with True b c show ?thesis by (cases b) (simp_all add: march_step)
  qed
qed

lemma march_total:
  assumes "rectangular (map_data w)"
  shows "\<exists>d t. march w dx dy rx ry distance = Inr (d, t)"
proof -
  have "1280 \<le> distance + 4 * int (nat (1280 - distance))" by simp
  then show ?thesis by (rule march_total_aux [OF assms])
qed

lemma march_distance_aux:
  assumes "1280 \<le> distance + 4 * int n" and "0 \<le> distance"
    and "march w dx dy rx ry distance = Inr (d, t)"
  shows "4 \<le> d \<and> (distance mod 4 = 0 \<longrightarrow> d \<le> 1280 \<and> d mod 4 = 0)"
  using assms
proof (induction n arbitrary: rx ry distance)
  case 0
  then show ?case by (simp add: march_stop)
next
  case (Suc n)
  show ?case
  proof (cases "distance < 1280")
    case False
    with Suc.prems(3) show ?thesis by (simp add: march_stop)
  next
    case True
    show ?thesis
    proof (cases "is_wall w (rx + dx * 4) (ry + dy * 4)")
      case (Inl e)
      with True Suc.prems(3) show ?thesis by (simp add: march_step)
    next
      case (Inr b)
      show ?thesis
      proof (cases b)
        case True
        with Inr \<open>distance < 1280\<close> Suc.prems(2,3) show ?thesis
          by (auto simp add: march_step split: sum.splits)
      next
        case False
        with Inr \<open>distance < 1280\<close> Suc.prems(3)
        have "march w dx dy (rx + dx * 4) (ry + dy * 4) (distance + 4) = Inr (d, t)"
          by (simp add: march_step)
        then have "4 \<le> d \<and> ((distance + 4) mod 4 = 0 \<longrightarrow> d \<le> 1280 \<and> d mod 4 = 0)"
          using Suc.prems(1,2) by (intro Suc.IH) simp_all
        then show ?thesis by simp
      qed
    qed
  qed
qed

lemma march_distance:
  assumes "0 \<le> distance" and "march w dx dy rx ry distance = Inr (d, t)"
  shows "4 \<le> d \<and> (distance mod 4 = 0 \<longrightarrow> d \<le> 1280 \<and> d mod 4 = 0)"
proof -
  have "1280 \<le> distance + 4 * int (nat (1280 - distance))" by simp
  then show ?thesis using assms by (rule march_distance_aux)
qed

section \<open>Rays on concrete maps\<close>

lemma built_in_dims: "length (hd built_in_map) = 20" "length built_in_map = 15"
  by (simp_all add: built_in_map_def)

lemma built_in_row3: "1 \<le> i \<Longrightarrow> i \<le> 18 \<Longrightarrow> built_in_map ! 3 ! i = 0"
  by (simp add: built_in_map_def nth_Cons')

lemma row3_open:
  assumes "64 \<le> x" and "x < 1216"
  shows "is_wall World_init x 192 = Inr False"
proof -
  have gy: "grid_of 192 = 3" by (simp add: grid_of_def TILE_SIZE_def)
  have lo: "1 \<le> grid_of x" using assms(1) by (simp add: grid_of_def TILE_SIZE_def le_floor_iff)
  have hi: "grid_of x \<le> 18" using assms(2) by (simp add: grid_of_def TILE_SIZE_def floor_le_iff)
  from lo hi have "built_in_map ! 3 ! nat (grid_of x) = 0"
    by (intro built_in_row3) simp_all
  with lo hi gy show ?thesis
    using is_wall_rectangular [OF rectangular_built_in, of x 192]
    by (simp add: World_init_def built_in_dims)
qed

lemma east_border_wall: "is_wall World_init 1216 192 = Inr True"
  by (simp add: is_wall_def out_of_bounds_def tile_def py_index_def grid_of_def TILE_SIZE_def
      World_init_def built_in_map_def)

lemma east_border_code: "get_wall_at World_init (grid_of 1216) (grid_of 192) = Inr 1"
  by (simp add: get_wall_at_def out_of_bounds_def tile_def py_index_def grid_of_def TILE_SIZE_def
      World_init_def built_in_map_def)

text \<open>A ray along row 3 of the built-in map, heading east from \<open>x0\<close>, with the east border
  exactly \<open>k\<close> steps away.\<close>

lemma east_ray:
  assumes "64 \<le> x0" and "x0 + 4 * real k = 1216" and "1 \<le> k"
  shows "march World_init 1 0 x0 192 0 = Inr (4 * int k, 1)"
proof -
  have "march World_init 1 0 x0 192 0 =
          (case get_wall_at World_init (grid_of (x0 + real k * (1 * 4))) (grid_of (192 + real k * (0 * 4))) of
             Inl e \<Rightarrow> Inl e
           | Inr wall_type \<Rightarrow> Inr (0 + 4 * int k, wall_type))"
  proof (rule march_hit [OF assms(3)])
    have "real k \<le> 288" using assms(1,2) by simp
    then have "k \<le> 288" by simp
    then show "0 + 4 * int k < 1284" by simp
    show "\<forall>j. 1 \<le> j \<and> j < k \<longrightarrow>
            is_wall World_init (x0 + real j * (1 * 4)) (192 + real j * (0 * 4)) = Inr False"
    proof (intro allI impI)
      fix j assume j: "1 \<le> j \<and> j < k"
      then have "real j < real k" by simp
      with assms(1,2) j have "64 \<le> x0 + real j * 4" "x0 + real j * 4 < 1216" by simp_all
      then show "is_wall World_init (x0 + real j * (1 * 4)) (192 + real j * (0 * 4)) = Inr False"
        using row3_open by simp
    qed
    have "x0 + real k * (1 * 4) = 1216" using assms(2) by simp
    then show "is_wall World_init (x0 + real k * (1 * 4)) (192 + real k * (0 * 4)) = Inr True"
      using east_border_wall by simp
  qed
  moreover have "x0 + real k * (1 * 4) = 1216" using assms(2) by simp
  ultimately show ?thesis using east_border_code by simp
qed

lemma cast_ray_spawn_east: "cast_ray World_init 192 192 0 = Inr (1024, 1)"
  using east_ray [of 192 256] by (simp add: cast_ray_def)

lemma cast_ray_two_tiles_east: "cast_ray World_init 1088 192 0 = Inr (128, 1)"
  using east_ray [of 1088 32] by (simp add: cast_ray_def)

lemma cast_ray_corner: "cast_ray World_init 0 0 0 = Inr (4, 1)"
  by (simp add: cast_ray_def march_step is_wall_def get_wall_at_def out_of_bounds_def tile_def
      py_index_def grid_of_def TILE_SIZE_def World_init_def built_in_map_def)

lemma centre_ray_angle: "angle (Player_init x0 y0) - half_fov + real_of_int 256 * angle_step = 0"
  by (simp add: Player_init_def half_fov_def angle_step_def fov_rad_def FOV_def RAY_COUNT_def
      SCREEN_WIDTH_def)

lemma rectangular_open_strip: "rectangular (map_data open_strip_world)"
  by (simp add: rectangular_def open_strip_world_def)

lemma open_strip_no_wall:
  assumes "0 \<le> x" and "x < 1920"
  shows "is_wall open_strip_world x 32 = Inr False"
proof -
  have gy: "grid_of 32 = 0" by (simp add: grid_of_def TILE_SIZE_def)
  have lo: "0 \<le> grid_of x" using assms(1) by (simp add: grid_of_def TILE_SIZE_def)
  have hi: "grid_of x < 30" using assms(2) by (simp add: grid_of_def TILE_SIZE_def floor_less_iff)
  from lo hi have "nat (grid_of x) < 30" by simp
  then have "replicate 30 (0::int) ! nat (grid_of x) = 0" by (rule nth_replicate)
  with lo hi gy show ?thesis
    using is_wall_rectangular [OF rectangular_open_strip, of x 32]
    by (simp add: open_strip_world_def)
qed

section \<open>The ray cast and the wall strip\<close>

lemma wall_height_of_positive:
  "0 < d \<Longrightarrow> wall_height_of d =
     min ((real_of_int TILE_SIZE / real_of_int d) * real_of_int SCREEN_HEIGHT) (real_of_int SCREEN_HEIGHT)"
  by (simp add: wall_height_of_def)

text \<open>
  Claim C7. The ray march ends within limit / step = 320 turns of the loop, where the
  limit is RENDER_DISTANCE * TILE_SIZE = 1280: run with a budget of 320 loop bodies it
  returns, and returns what \<open>_cast_ray\<close> returns. If the \<open>k\<close>-th sample point (at
  distance \<open>k\<close> steps, within the limit) is the first that \<open>is_wall\<close> reports, the result is
  the accumulated distance \<open>k * step\<close> with the code \<open>get_wall_at\<close> gives for that point's
  cell; if no sample point within the limit is a wall, the result is the limit itself
  with code 0.
\<close>

theorem cast_ray_bounded:
  "march_fuel (nat (RENDER_DISTANCE * TILE_SIZE div step_size)) w (cos a) (sin a) sx sy 0 =
     Some (cast_ray w sx sy a) \<and>
   (\<forall>k t. 1 \<le> k \<and> int k * step_size \<le> RENDER_DISTANCE * TILE_SIZE \<and>
      (\<forall>j. 1 \<le> j \<and> j < k \<longrightarrow>
         is_wall w (sx + real j * (cos a * real_of_int step_size))
                   (sy + real j * (sin a * real_of_int step_size)) = Inr False) \<and>
      is_wall w (sx + real k * (cos a * real_of_int step_size))
                (sy + real k * (sin a * real_of_int step_size)) = Inr True \<and>
      get_wall_at w (grid_of (sx + real k * (cos a * real_of_int step_size)))
                    (grid_of (sy + real k * (sin a * real_of_int step_size))) = Inr t
      \<longrightarrow> cast_ray w sx sy a = Inr (int k * step_size, t)) \<and>
   ((\<forall>j. 1 \<le> j \<and> int j * step_size \<le> RENDER_DISTANCE * TILE_SIZE \<longrightarrow>
         is_wall w (sx + real j * (cos a * real_of_int step_size))
                   (sy + real j * (sin a * real_of_int step_size)) = Inr False)
      \<longrightarrow> cast_ray w sx sy a = Inr (RENDER_DISTANCE * TILE_SIZE, 0))"
proof -
  have fuel: "march_fuel (nat (RENDER_DISTANCE * TILE_SIZE div step_size)) w (cos a) (sin a) sx sy 0 =
     Some (cast_ray w sx sy a)"
    unfolding cast_ray_def
    by (rule march_fuel_enough) (simp add: RENDER_DISTANCE_def TILE_SIZE_def step_size_def)
  have hit: "cast_ray w sx sy a = Inr (int k * step_size, t)"
    if k: "1 \<le> k" "int k * step_size \<le> RENDER_DISTANCE * TILE_SIZE"
      and before: "\<forall>j. 1 \<le> j \<and> j < k \<longrightarrow>
         is_wall w (sx + real j * (cos a * real_of_int step_size))
                   (sy + real j * (sin a * real_of_int step_size)) = Inr False"
      and at: "is_wall w (sx + real k * (cos a * real_of_int step_size))
                (sy + real k * (sin a * real_of_int step_size)) = Inr True"
      and code: "get_wall_at w (grid_of (sx + real k * (cos a * real_of_int step_size)))
                    (grid_of (sy + real k * (sin a * real_of_int step_size))) = Inr t"
    for k t
  proof -
    have "march w (cos a) (sin a) sx sy 0 =
           (case get_wall_at w (grid_of (sx + real k * (cos a * 4))) (grid_of (sy + real k * (sin a * 4))) of
              Inl e \<Rightarrow> Inl e
            | Inr wall_type \<Rightarrow> Inr (0 + 4 * int k, wall_type))"
    proof (rule march_hit [OF k(1)])
      show "0 + 4 * int k < 1284"
        using k(2) by (simp add: RENDER_DISTANCE_def TILE_SIZE_def step_size_def)
      show "\<forall>j. 1 \<le> j \<and> j < k \<longrightarrow>
              is_wall w (sx + real j * (cos a * 4)) (sy + real j * (sin a * 4)) = Inr False"
        using before by (simp add: step_size_def)
      show "is_wall w (sx + real k * (cos a * 4)) (sy + real k * (sin a * 4)) = Inr True"
        using at by (simp add: step_size_def)
    qed
    moreover have "get_wall_at w (grid_of (sx + real k * (cos a * 4)))
                    (grid_of (sy + real k * (sin a * 4))) = Inr t"
      using code by (simp add: step_size_def)
    ultimately show ?thesis
      by (simp add: cast_ray_def step_size_def mult.commute)
  qed
  have miss: "cast_ray w sx sy a = Inr (RENDER_DISTANCE * TILE_SIZE, 0)"
    if none: "\<forall>j. 1 \<le> j \<and> int j * step_size \<le> RENDER_DISTANCE * TILE_SIZE \<longrightarrow>
         is_wall w (sx + real j * (cos a * real_of_int step_size))
                   (sy + real j * (sin a * real_of_int step_size)) = Inr False"
  proof -
    have "march w (cos a) (sin a) sx sy 0 = Inr (1280, 0)"
    proof (rule march_miss [where n = 320])
      show "1280 \<le> 0 + 4 * int 320" by simp
      show "\<forall>j. 1 \<le> j \<and> j \<le> 320 \<longrightarrow>
              is_wall w (sx + real j * (cos a * 4)) (sy + real j * (sin a * 4)) = Inr False"
        using none by (simp add: RENDER_DISTANCE_def TILE_SIZE_def step_size_def)
    qed
    then show ?thesis
      by (simp add: cast_ray_def RENDER_DISTANCE_def TILE_SIZE_def)
  qed
  from fuel hit miss show ?thesis by blast
qed

text \<open>
  A ray on the built-in map that meets the east border at its second step, and a ray on
  a map without walls, 30 tiles wide, that runs out at the limit.
\<close>

theorem cast_ray_bounded_witness:
  "march_fuel 320 World_init 1 0 1210 192 0 = Some (Inr (8, 1)) \<and>
   cast_ray World_init 1210 192 0 = Inr (8, 1) \<and>
   cast_ray open_strip_world 0 32 0 = Inr (1280, 0)"
proof -
  note t1 = cast_ray_bounded [of World_init 0 1210 192]
  note t2 = cast_ray_bounded [of open_strip_world 0 0 32]
  have "is_wall World_init 1214 192 = Inr False"
    by (rule row3_open) simp_all
  then have before: "\<forall>j. 1 \<le> j \<and> j < (2::nat) \<longrightarrow>
         is_wall World_init (1210 + real j * (cos 0 * real_of_int step_size))
                   (192 + real j * (sin 0 * real_of_int step_size)) = Inr False"
  proof (intro allI impI)
    fix j :: nat assume "1 \<le> j \<and> j < 2"
    then have "j = 1" by simp
    with \<open>is_wall World_init 1214 192 = Inr False\<close>
    show "is_wall World_init (1210 + real j * (cos 0 * real_of_int step_size))
                   (192 + real j * (sin 0 * real_of_int step_size)) = Inr False"
      by (simp add: step_size_def)
  qed
  have at: "is_wall World_init (1210 + real (2::nat) * (cos 0 * real_of_int step_size))
                (192 + real (2::nat) * (sin 0 * real_of_int step_size)) = Inr True"
    by (simp add: step_size_def is_wall_def out_of_bounds_def tile_def py_index_def grid_of_def
        TILE_SIZE_def World_init_def built_in_map_def)
  have code: "get_wall_at World_init (grid_of (1210 + real (2::nat) * (cos 0 * real_of_int step_size)))
                    (grid_of (192 + real (2::nat) * (sin 0 * real_of_int step_size))) = Inr 1"
    by (simp add: step_size_def get_wall_at_def out_of_bounds_def tile_def py_index_def grid_of_def
        TILE_SIZE_def World_init_def built_in_map_def)
  have "(1::nat) \<le> 2 \<and> int 2 * step_size \<le> RENDER_DISTANCE * TILE_SIZE"
    by (simp add: RENDER_DISTANCE_def TILE_SIZE_def step_size_def)
  with t1 before at code have hit: "cast_ray World_init 1210 192 0 = Inr (int 2 * step_size, 1)"
    by blast
  have "\<forall>j. 1 \<le> j \<and> int j * step_size \<le> RENDER_DISTANCE * TILE_SIZE \<longrightarrow>
         is_wall open_strip_world (0 + real j * (cos 0 * real_of_int step_size))
                   (32 + real j * (sin 0 * real_of_int step_size)) = Inr False"
  proof (intro allI impI)
    fix j :: nat assume "1 \<le> j \<and> int j * step_size \<le> RENDER_DISTANCE * TILE_SIZE"
    then have "j \<le> 320" by (simp add: RENDER_DISTANCE_def TILE_SIZE_def step_size_def)
    then have "real j \<le> 320" by simp
    then have "is_wall open_strip_world (real j * 4) 32 = Inr False"
      by (intro open_strip_no_wall) simp_all
    then show "is_wall open_strip_world (0 + real j * (cos 0 * real_of_int step_size))
                   (32 + real j * (sin 0 * real_of_int step_size)) = Inr False"
      by (simp add: step_size_def)
  qed
  with t2 have miss: "cast_ray open_strip_world 0 32 0 = Inr (RENDER_DISTANCE * TILE_SIZE, 0)"
    by blast
  from t1 have "march_fuel (nat (RENDER_DISTANCE * TILE_SIZE div step_size)) World_init (cos 0) (sin 0) 1210 192 0 =
     Some (cast_ray World_init 1210 192 0)" by blast
  with hit miss show ?thesis
    by (simp add: RENDER_DISTANCE_def TILE_SIZE_def step_size_def)
qed

text \<open>
  Claim C8. On the built-in map, the ray cast from the spawn position (3 tiles, 3 tiles)
  with heading 0 reports the east border of code 1 at the distance
  (width - 1 - 3) * tile size = 1024, which is within one step of that value; and for
  every positive distance the strip height is (tile size / distance) * screen height,
  capped at the screen height.
\<close>

theorem spawn_ray_east_border:
  "cast_ray World_init (real_of_int PLAYER_START_X) (real_of_int PLAYER_START_Y) 0 =
     Inr ((int (length (hd (map_data World_init))) - 1 - 3) * TILE_SIZE, 1) \<and>
   (\<exists>d t. cast_ray World_init (real_of_int PLAYER_START_X) (real_of_int PLAYER_START_Y) 0 = Inr (d, t) \<and>
          \<bar>d - (int (length (hd (map_data World_init))) - 1 - 3) * TILE_SIZE\<bar> \<le> step_size) \<and>
   (\<forall>d ray_index wall_type. 0 < d \<longrightarrow>
      wall_height (make_strip ray_index d wall_type) =
        min ((real_of_int TILE_SIZE / real_of_int d) * real_of_int SCREEN_HEIGHT)
            (real_of_int SCREEN_HEIGHT))"
proof -
  have "cast_ray World_init (real_of_int PLAYER_START_X) (real_of_int PLAYER_START_Y) 0 =
     Inr ((int (length (hd (map_data World_init))) - 1 - 3) * TILE_SIZE, 1)"
    using cast_ray_spawn_east
    by (simp add: PLAYER_START_X_def PLAYER_START_Y_def TILE_SIZE_def World_init_def built_in_dims)
  moreover have "wall_height (make_strip ray_index d wall_type) =
        min ((real_of_int TILE_SIZE / real_of_int d) * real_of_int SCREEN_HEIGHT)
            (real_of_int SCREEN_HEIGHT)" if "0 < d" for d ray_index wall_type
    using that by (simp add: make_strip_def Let_def wall_height_of_positive)
  ultimately show ?thesis by (simp add: step_size_def)
qed

text \<open>The strip of the spawn ray: 64 / 1024 * 768 = 48 pixels high.\<close>

theorem spawn_ray_east_border_witness:
  "(0::int) < 1024 \<and> wall_height (make_strip 256 1024 1) = 48"
proof -
  have "(0::int) < 1024 \<longrightarrow> wall_height (make_strip 256 1024 1) =
        min ((real_of_int TILE_SIZE / real_of_int 1024) * real_of_int SCREEN_HEIGHT)
            (real_of_int SCREEN_HEIGHT)"
    using spawn_ray_east_border by blast
  then show ?thesis by (simp add: TILE_SIZE_def SCREEN_HEIGHT_def)
qed

text \<open>
  Claim C10. \<open>_cast_ray\<close> steps before it tests, and only adds the positive step, so
  every distance it returns is at least the step size, hence positive; the strip height
  of a rendered column is therefore always computed by the division, never by the
  fallback for a distance that is not positive. On a rectangular map the ray cast does
  return a distance.
\<close>

theorem cast_ray_distance_positive:
  "(\<forall>d t. cast_ray w start_x start_y ray_angle = Inr (d, t) \<longrightarrow>
      step_size \<le> d \<and> 0 < d \<and>
      wall_height_of d =
        min ((real_of_int TILE_SIZE / real_of_int d) * real_of_int SCREEN_HEIGHT)
            (real_of_int SCREEN_HEIGHT)) \<and>
   (\<forall>s. render_column w p ray_index = Inr s \<longrightarrow>
      (\<exists>d t. cast_ray w (player_x p) (player_y p)
                 (angle p - half_fov + real_of_int ray_index * angle_step) = Inr (d, t) \<and>
             0 < d \<and>
             wall_height s =
               min ((real_of_int TILE_SIZE / real_of_int d) * real_of_int SCREEN_HEIGHT)
                   (real_of_int SCREEN_HEIGHT))) \<and>
   (rectangular (map_data w) \<longrightarrow>
      (\<exists>d t. cast_ray w start_x start_y ray_angle = Inr (d, t) \<and> step_size \<le> d))"
proof -
  have pos: "step_size \<le> d \<and> 0 < d" if "cast_ray w sx sy a = Inr (d, t)" for sx sy a d t
    using march_distance [of 0 w "cos a" "sin a" sx sy d t] that
    by (simp add: cast_ray_def step_size_def)
  have one: "step_size \<le> d \<and> 0 < d \<and>
      wall_height_of d =
        min ((real_of_int TILE_SIZE / real_of_int d) * real_of_int SCREEN_HEIGHT)
            (real_of_int SCREEN_HEIGHT)"
    if "cast_ray w start_x start_y ray_angle = Inr (d, t)" for d t
    using pos [OF that] by (simp add: wall_height_of_positive)
  have two: "\<exists>d t. cast_ray w (player_x p) (player_y p)
                 (angle p - half_fov + real_of_int ray_index * angle_step) = Inr (d, t) \<and>
             0 < d \<and>
             wall_height s =
               min ((real_of_int TILE_SIZE / real_of_int d) * real_of_int SCREEN_HEIGHT)
                   (real_of_int SCREEN_HEIGHT)"
    if "render_column w p ray_index = Inr s" for s
  proof -
    from that obtain d t where
      c: "cast_ray w (player_x p) (player_y p)
            (angle p - half_fov + real_of_int ray_index * angle_step) = Inr (d, t)"
      and s: "s = make_strip ray_index d t"
      by (auto simp add: render_column_def Let_def split: sum.splits prod.splits)
    from pos [OF c] have "0 < d" by simp
    with c s show ?thesis
      by (auto simp add: make_strip_def Let_def wall_height_of_positive)
  qed
  have three: "\<exists>d t. cast_ray w start_x start_y ray_angle = Inr (d, t) \<and> step_size \<le> d"
    if "rectangular (map_data w)"
  proof -
    from march_total [OF that] obtain d t where
      "cast_ray w start_x start_y ray_angle = Inr (d, t)"
      unfolding cast_ray_def by blast
    with pos show ?thesis by blast
  qed
  from one two three show ?thesis by blast
qed

text \<open>A ray that starts in the corner tile of the built-in map, and the centre column of the
  view from the spawn position.\<close>

theorem cast_ray_distance_positive_witness:
  "rectangular (map_data World_init) \<and>
   cast_ray World_init 0 0 0 = Inr (4, 1) \<and> step_size \<le> 4 \<and> wall_height_of 4 = 768 \<and>
   render_column World_init (Player_init 192 192) 256 = Inr (make_strip 256 1024 1) \<and>
   wall_height (make_strip 256 1024 1) = 48"
proof -
  note t = cast_ray_distance_positive [of World_init 0 0 0 "Player_init 192 192" 256]
  have col: "render_column World_init (Player_init 192 192) 256 = Inr (make_strip 256 1024 1)"
    using cast_ray_spawn_east centre_ray_angle [of 192 192]
    by (simp add: render_column_def Let_def Player_init_def)
  from t cast_ray_corner have a: "step_size \<le> 4 \<and> wall_height_of 4 =
        min ((real_of_int TILE_SIZE / real_of_int 4) * real_of_int SCREEN_HEIGHT)
            (real_of_int SCREEN_HEIGHT)" by blast
  from t col have "\<exists>d t. cast_ray World_init (player_x (Player_init 192 192)) (player_y (Player_init 192 192))
                 (angle (Player_init 192 192) - half_fov + real_of_int 256 * angle_step) = Inr (d, t) \<and>
             0 < d \<and>
             wall_height (make_strip 256 1024 1) =
               min ((real_of_int TILE_SIZE / real_of_int d) * real_of_int SCREEN_HEIGHT)
                   (real_of_int SCREEN_HEIGHT)" by blast
  then have b: "wall_height (make_strip 256 1024 1) = 48"
    using cast_ray_spawn_east centre_ray_angle [of 192 192]
    by (auto simp add: Player_init_def TILE_SIZE_def SCREEN_HEIGHT_def)
  from a b col cast_ray_corner rectangular_built_in show ?thesis
    by (simp add: TILE_SIZE_def SCREEN_HEIGHT_def)
qed

section \<open>Shading\<close>

lemma shade_factor_range: "1 / 10 \<le> shade_factor d \<and> (0 \<le> d \<longrightarrow> shade_factor d \<le> 1)"
  by (simp add: shade_factor_def RENDER_DISTANCE_def max_def)

lemma shade_factor_floor: "18 \<le> d \<Longrightarrow> shade_factor d = 1 / 10"
  by (simp add: shade_factor_def RENDER_DISTANCE_def max_def)

lemma py_int_scaled_range:
  assumes "0 \<le> c" and "c \<le> 255" and "0 \<le> f" and "f \<le> 1"
  shows "0 \<le> py_int (real_of_int c * f) \<and> py_int (real_of_int c * f) \<le> 255"
proof -
  have nn: "0 \<le> real_of_int c * f" using assms by simp
  have "real_of_int c * f \<le> real_of_int c * 1"
    using assms by (intro mult_left_mono) simp_all
  then have "real_of_int c * f \<le> 255" using assms by simp
  then have "\<lfloor>real_of_int c * f\<rfloor> \<le> 255" by (simp add: floor_le_iff)
  with nn show ?thesis by (simp add: py_int_def)
qed

lemma shade_channels_in_range:
  assumes "0 \<le> d" and "c = (r, g, b)"
    and "0 \<le> r \<and> r \<le> 255" and "0 \<le> g \<and> g \<le> 255" and "0 \<le> b \<and> b \<le> 255"
    and "shade (shade_factor d) c = (r', g', b')"
  shows "0 \<le> r' \<and> r' \<le> 255 \<and> 0 \<le> g' \<and> g' \<le> 255 \<and> 0 \<le> b' \<and> b' \<le> 255"
proof -
  have f: "0 \<le> shade_factor d" "shade_factor d \<le> 1"
    using shade_factor_range [of d] assms(1) by simp_all
  show ?thesis
    using assms(2-6) py_int_scaled_range [OF _ _ f]
    by (auto simp add: shade_def)
qed

text \<open>
  Claim C2 at a failing input. A player in tile (17, 3) of the built-in map looks east:
  the ray meets the border after 128 pixels, which is 2 tiles, a tenth of the render
  distance of 20 tiles. The code divides the 128 pixels by the 20 tiles, so the factor
  bottoms out at 0.1 and the gray wall is drawn as (12, 12, 12); with both lengths in
  tiles the factor is 0.9 and the colour (115, 115, 115).
\<close>

theorem shade_mixes_units:
  "cast_ray World_init 1088 192 0 = Inr (128, 1) \<and>
   shade_factor 128 = 1 / 10 \<and>
   shaded_color (make_strip 256 128 1) = (12, 12, 12) \<and>
   shade_factor_as_claimed 128 = 9 / 10 \<and>
   shade (shade_factor_as_claimed 128) (wall_color_of 1) = (115, 115, 115)"
  using cast_ray_two_tiles_east
  by (simp add: make_strip_def Let_def shade_def shade_factor_def shade_factor_as_claimed_def
      wall_color_of_def wall_colors_def GRAY_def py_int_def RENDER_DISTANCE_def TILE_SIZE_def)

section \<open>Player.rotate\<close>

text \<open>Rounding to binary64 at a value whose binary exponent is known.\<close>

lemma fl_eval:
  assumes "0 < v" and "2 powr real_of_int e \<le> v" and "v < 2 powr real_of_int (e + 1)"
  shows "fl v = of_int (round_half_even (v / 2 powr real_of_int (e - 52))) * 2 powr real_of_int (e - 52)"
proof -
  have "\<lfloor>log 2 v\<rfloor> = e"
    using assms by (simp add: floor_log_eq_powr_iff)
  with assms(1) show ?thesis by (simp add: fl_def Let_def)
qed

lemma two_pi_exact: "fl (2 * math_pi) = 2 * math_pi"
proof -
  have "fl (2 * math_pi) =
        of_int (round_half_even (2 * math_pi / 2 powr real_of_int (2 - 52))) * 2 powr real_of_int (2 - 52)"
    by (rule fl_eval) (simp_all add: math_pi_def)
  also have "2 powr real_of_int (2 - 52) = 1 / 2 ^ 50"
    by (simp add: powr_minus_divide)
  also have "2 * math_pi / (1 / 2 ^ 50) = 7074237752028440"
    by (simp add: math_pi_def)
  also have "round_half_even 7074237752028440 = 7074237752028440"
    by (simp add: round_half_even_def)
  finally show ?thesis by (simp add: math_pi_def)
qed

lemma fl_big: "fl (0 + 10 ^ 17) = 10 ^ 17"
proof -
  have "fl (0 + 10 ^ 17) =
        of_int (round_half_even ((0 + 10 ^ 17) / 2 powr real_of_int (56 - 52))) * 2 powr real_of_int (56 - 52)"
    by (rule fl_eval) simp_all
  also have "2 powr real_of_int (56 - 52) = 16" by simp
  also have "(0 + 10 ^ 17) / (16::real) = 6250000000000000" by simp
  also have "round_half_even 6250000000000000 = 6250000000000000"
    by (simp add: round_half_even_def)
  finally show ?thesis by simp
qed

lemma fl_absorbs: "fl (10 ^ 17 - 2 * math_pi) = 10 ^ 17"
proof -
  have "fl (10 ^ 17 - 2 * math_pi) =
        of_int (round_half_even ((10 ^ 17 - 2 * math_pi) / 2 powr real_of_int (56 - 52))) * 2 powr real_of_int (56 - 52)"
    by (rule fl_eval) (simp_all add: math_pi_def)
  also have "2 powr real_of_int (56 - 52) = 16" by simp
  also have "round_half_even ((10 ^ 17 - 2 * math_pi) / 16) = 6250000000000000"
  proof -
    have "\<lfloor>(10 ^ 17 - 2 * math_pi) / 16\<rfloor> = 6249999999999999"
      by (simp add: math_pi_def floor_eq_iff)
    moreover have "1 / 2 < (10 ^ 17 - 2 * math_pi) / 16 - 6249999999999999"
      by (simp add: math_pi_def)
    ultimately show ?thesis by (simp add: round_half_even_def Let_def)
  qed
  finally show ?thesis by simp
qed

lemma wrap_down_stuck: "wrap_down (10 ^ 17) = None"
proof (rule ccontr)
  assume "wrap_down (10 ^ 17) \<noteq> None"
  then obtain y where y: "wrap_down (10 ^ 17) = Some y" by auto
  have "a \<noteq> 10 ^ 17" if run: "wrap_down a = Some y'" for a y'
  proof (rule wrap_down.raw_induct [where P = "\<lambda>a y. a \<noteq> 10 ^ 17", OF _ run])
    fix f :: "real \<Rightarrow> real option" and b z :: real
    assume IH: "\<And>x y. f x = Some y \<Longrightarrow> x \<noteq> 10 ^ 17"
      and step: "(if fl (2 * math_pi) \<le> b then f (fl (b - fl (2 * math_pi))) else Some b) = Some z"
    show "b \<noteq> 10 ^ 17"
    proof
      assume b: "b = 10 ^ 17"
      have "fl (2 * math_pi) \<le> (10::real) ^ 17"
        unfolding two_pi_exact by (simp add: math_pi_def)
      with step b have "f (fl (10 ^ 17 - fl (2 * math_pi))) = Some z" by simp
      then have "f (10 ^ 17) = Some z" by (simp only: two_pi_exact fl_absorbs)
      with IH show False by blast
    qed
  qed
  with y show False by blast
qed

lemma wrap_up_done: "0 \<le> a \<Longrightarrow> wrap_up a = Some a"
  by (subst wrap_up.simps) simp

lemma wrap_down_done: "a < 2 * math_pi \<Longrightarrow> wrap_down a = Some a"
  by (subst wrap_down.simps) (simp add: two_pi_exact)

text \<open>
  Claim C5 at a failing input. A player with heading 0 is rotated by 1e17 radians: the sum
  is 1e17, the first loop does nothing, and in the second loop \<open>1e17 - 2 * math.pi\<close>
  rounds back to 1e17 (binary64 numbers near 1e17 are 16 apart), so the heading never
  changes and the call never returns.
\<close>

theorem rotate_large_delta_diverges:
  "angle (Player_init 192 192) = 0 \<and> rotate (Player_init 192 192) (10 ^ 17) = None"
proof -
  have ang: "angle (Player_init 192 192) = 0"
    by (simp add: Player_init_def)
  have up: "wrap_up (fl (0 + 10 ^ 17)) = Some (10 ^ 17)"
    unfolding fl_big by (rule wrap_up_done) simp
  have "rotate (Player_init 192 192) (10 ^ 17) = None"
    by (simp only: rotate_def ang up wrap_down_stuck option.case)
  with ang show ?thesis by simp
qed

text \<open>On an everyday input the same model returns: the quarter turn of the mechanics test.\<close>

lemma fl_half_pi: "fl (0 + math_pi / 2) = math_pi / 2"
proof -
  have "fl (0 + math_pi / 2) =
        of_int (round_half_even ((0 + math_pi / 2) / 2 powr real_of_int (0 - 52))) * 2 powr real_of_int (0 - 52)"
    by (rule fl_eval) (simp_all add: math_pi_def)
  also have "2 powr real_of_int (0 - 52) = 1 / 2 ^ 52"
    by (simp add: powr_minus_divide)
  also have "(0 + math_pi / 2) / (1 / 2 ^ 52) = 7074237752028440"
    by (simp add: math_pi_def)
  also have "round_half_even 7074237752028440 = 7074237752028440"
    by (simp add: round_half_even_def)
  finally show ?thesis by (simp add: math_pi_def)
qed

lemma rotate_quarter_turn:
  "rotate (Player_init 192 192) (math_pi / 2) = Some ((Player_init 192 192)\<lparr>angle := math_pi / 2\<rparr>)"
proof -
  have "wrap_up (fl (0 + math_pi / 2)) = Some (math_pi / 2)"
    unfolding fl_half_pi by (rule wrap_up_done) (simp add: math_pi_def)
  moreover have "wrap_down (math_pi / 2) = Some (math_pi / 2)"
    by (rule wrap_down_done) (simp add: math_pi_def)
  moreover have "angle (Player_init 192 192) = 0"
    by (simp add: Player_init_def)
  ultimately show ?thesis by (simp only: rotate_def option.case)
qed

text \<open>
  In exact arithmetic the loops do what the specification says of \<open>rotate\<close>: the heading
  ends in \<open>[0, 2\<pi>)\<close>, it differs from the sum by a whole number of turns (it is the sum
  modulo \<open>2\<pi>\<close>), and a full turn leaves a heading in range unchanged.
\<close>

lemma wrap_up_exact_spec:
  "\<exists>n::nat. wrap_up_exact a = a + 2 * pi * real n \<and> 0 \<le> wrap_up_exact a \<and> (0 \<le> a \<or> wrap_up_exact a < 2 * pi)"
proof (induction a rule: wrap_up_exact.induct)
  case (1 a)
  show ?case
  proof (cases "a < 0")
    case False
    then have "wrap_up_exact a = a" by (subst wrap_up_exact.simps) simp
    with False show ?thesis by (intro exI [of _ 0]) simp
  next
    case True
    from 1 [OF True] obtain n :: nat where
      n: "wrap_up_exact (a + 2 * pi) = a + 2 * pi + 2 * pi * real n"
         "0 \<le> wrap_up_exact (a + 2 * pi)"
         "0 \<le> a + 2 * pi \<or> wrap_up_exact (a + 2 * pi) < 2 * pi" by blast
    have eq: "wrap_up_exact a = wrap_up_exact (a + 2 * pi)"
      using True by (subst wrap_up_exact.simps) simp
    have lt: "wrap_up_exact (a + 2 * pi) < 2 * pi"
    proof (cases "0 \<le> a + 2 * pi")
      case True
      then have "wrap_up_exact (a + 2 * pi) = a + 2 * pi" by (subst wrap_up_exact.simps) simp
      with \<open>a < 0\<close> show ?thesis by simp
    next
      case False
      with n(3) show ?thesis by simp
    qed
    show ?thesis
      using n(1,2) lt unfolding eq
      by (intro exI [of _ "Suc n"]) (simp add: algebra_simps)
  qed
qed

lemma wrap_down_exact_spec:
  "0 \<le> a \<Longrightarrow> \<exists>n::nat. wrap_down_exact a = a - 2 * pi * real n \<and> 0 \<le> wrap_down_exact a \<and> wrap_down_exact a < 2 * pi"
proof (induction a rule: wrap_down_exact.induct)
  case (1 a)
  show ?case
  proof (cases "2 * pi \<le> a")
    case False
    then have "wrap_down_exact a = a" by (subst wrap_down_exact.simps) simp
    with False 1(2) show ?thesis by (intro exI [of _ 0]) simp
  next
    case True
    then have "0 \<le> a - 2 * pi" by simp
    from 1(1) [OF True this] obtain n :: nat where
      n: "wrap_down_exact (a - 2 * pi) = a - 2 * pi - 2 * pi * real n"
         "0 \<le> wrap_down_exact (a - 2 * pi)" "wrap_down_exact (a - 2 * pi) < 2 * pi" by blast
    have eq: "wrap_down_exact a = wrap_down_exact (a - 2 * pi)"
      using True by (subst wrap_down_exact.simps) simp
    show ?thesis
      using n unfolding eq
      by (intro exI [of _ "Suc n"]) (simp add: algebra_simps)
  qed
qed

lemma rotate_exact_normalises:
  "\<exists>k::int. angle (rotate_exact p d) = angle p + d + 2 * pi * of_int k \<and>
            0 \<le> angle (rotate_exact p d) \<and> angle (rotate_exact p d) < 2 * pi"
proof -
  obtain n :: nat where up: "wrap_up_exact (angle p + d) = angle p + d + 2 * pi * real n"
    "0 \<le> wrap_up_exact (angle p + d)"
    using wrap_up_exact_spec [of "angle p + d"] by blast
  obtain m :: nat where down:
    "wrap_down_exact (wrap_up_exact (angle p + d)) = wrap_up_exact (angle p + d) - 2 * pi * real m"
    "0 \<le> wrap_down_exact (wrap_up_exact (angle p + d))"
    "wrap_down_exact (wrap_up_exact (angle p + d)) < 2 * pi"
    using wrap_down_exact_spec [OF up(2)] by blast
  have "angle (rotate_exact p d) = angle p + d + 2 * pi * of_int (int n - int m)"
    using up(1) down(1) by (simp add: rotate_exact_def algebra_simps)
  with down(2,3) show ?thesis
    by (intro exI [of _ "int n - int m"]) (simp add: rotate_exact_def)
qed

lemma rotate_exact_mod:
  "angle (rotate_exact p d) = angle p + d - 2 * pi * of_int \<lfloor>(angle p + d) / (2 * pi)\<rfloor>"
proof -
  obtain k :: int where k: "angle (rotate_exact p d) = angle p + d + 2 * pi * of_int k"
    "0 \<le> angle (rotate_exact p d)" "angle (rotate_exact p d) < 2 * pi"
    using rotate_exact_normalises by blast
  have "(angle p + d) / (2 * pi) = angle (rotate_exact p d) / (2 * pi) - of_int k"
    using k(1) by (simp add: field_simps)
  moreover have "0 \<le> angle (rotate_exact p d) / (2 * pi)" "angle (rotate_exact p d) / (2 * pi) < 1"
    using k(2,3) by simp_all
  ultimately have "\<lfloor>(angle p + d) / (2 * pi)\<rfloor> = - k"
    by (intro floor_unique) simp_all
  with k(1) show ?thesis by simp
qed

lemma rotate_exact_full_turn:
  assumes "0 \<le> angle p" and "angle p < 2 * pi"
  shows "angle (rotate_exact p (2 * pi)) = angle p"
proof -
  have "(angle p + 2 * pi) / (2 * pi) = angle p / (2 * pi) + 1"
    by (simp add: field_simps)
  moreover have "\<lfloor>angle p / (2 * pi)\<rfloor> = 0"
    using assms by (intro floor_unique) simp_all
  ultimately have "\<lfloor>(angle p + 2 * pi) / (2 * pi)\<rfloor> = 1" by simp
  then show ?thesis by (simp add: rotate_exact_mod)
qed

end
